theory Spec2Isabelle
  imports Complex_Main "HOL-Library.Word"
begin

section \<open>JavaScript values used by the route handler\<close>

text \<open>
  A JavaScript string is a sequence of 16-bit code units. Literals of the source are
  written as HOL strings and injected with \<open>js\<close>.
\<close>

type_synonym jsstring = "16 word list"

definition js :: "string \<Rightarrow> jsstring" where
  "js s = map of_char s"

text \<open>
  \<open>String.prototype.trim\<close> strips WhiteSpace and LineTerminator code units from both
  ends: TAB, LF, VT, FF, CR, SPACE, NBSP, U+1680, U+2000 to U+200A, U+2028, U+2029, U+202F,
  U+205F, U+3000 and U+FEFF.
\<close>

definition is_white :: "16 word \<Rightarrow> bool" where
  "is_white c \<longleftrightarrow>
     c \<in> {0x9, 0xA, 0xB, 0xC, 0xD, 0x20, 0xA0, 0x1680, 0x2028, 0x2029, 0x202F, 0x205F,
          0x3000, 0xFEFF}
     \<or> (0x2000 \<le> c \<and> c \<le> 0x200A)"

definition trim :: "jsstring \<Rightarrow> jsstring" where
  "trim s = rev (dropWhile is_white (rev (dropWhile is_white s)))"

text \<open>\<open>s.split("\n")\<close>: the pieces between line feeds; the empty string gives one empty piece.\<close>

fun split_nl :: "jsstring \<Rightarrow> jsstring list" where
  "split_nl [] = [[]]"
| "split_nl (c # cs) =
     (if c = 0xA then [] # split_nl cs
      else (c # hd (split_nl cs)) # tl (split_nl cs))"

text \<open>\<open>Array.prototype.join\<close> on an array of strings.\<close>

fun array_join :: "jsstring \<Rightarrow> jsstring list \<Rightarrow> jsstring" where
  "array_join sep [] = []"
| "array_join sep [x] = x"
| "array_join sep (x # y # ys) = x @ sep @ array_join sep (y # ys)"

text \<open>Truthiness of a string (\<open>Boolean(s)\<close>): the empty string is the only falsy one.\<close>

definition truthy_str :: "jsstring \<Rightarrow> bool" where
  "truthy_str s \<longleftrightarrow> s \<noteq> []"

text \<open>
  \<open>x || d\<close> where \<open>x\<close> is a string, \<open>null\<close> or \<open>undefined\<close> (\<open>None\<close> stands for both).
\<close>

definition or_else :: "jsstring option \<Rightarrow> jsstring \<Rightarrow> jsstring" where
  "or_else x d = (case x of None \<Rightarrow> d | Some s \<Rightarrow> if truthy_str s then s else d)"

text \<open>
  Values that \<open>JSON.parse\<close> can produce, as read from a request body. A number is a finite
  double (a rational here) or, for a literal out of range, an infinity; \<open>-0\<close> is kept
  apart from \<open>0\<close>.
\<close>

datatype jsnumber = Finite rat | NegZero | PosInfinity | NegInfinity

datatype json =
    JNull
  | JBool bool
  | JNum jsnumber
  | JStr jsstring
  | JArr "json list"
  | JObj "(jsstring \<times> json) list"

text \<open>A value read out of a property: a JSON value or \<open>undefined\<close>.\<close>

type_synonym jsval = "json option"

fun truthy :: "jsval \<Rightarrow> bool" where
  "truthy None = False"
| "truthy (Some JNull) = False"
| "truthy (Some (JBool b)) = b"
| "truthy (Some (JNum (Finite r))) = (r \<noteq> 0)"
| "truthy (Some (JNum NegZero)) = False"
| "truthy (Some (JNum _)) = True"
| "truthy (Some (JStr s)) = truthy_str s"
| "truthy (Some (JArr _)) = True"
| "truthy (Some (JObj _)) = True"

text \<open>What can be thrown: an \<open>Error\<close> instance with its message, or any other value.\<close>

datatype thrown = ErrorObj jsstring | NonError


section \<open>The two collaborators and the environment\<close>

text \<open>
  The completion object of the generative-text client, as far as the handler reads it:
  \<open>choices[0]?.message?.content\<close>, where the content is a string or \<open>null\<close>.
\<close>

datatype chat_message = ChatMessage (content: "jsstring option")

datatype chat_choice = ChatChoice (message: "chat_message option")

datatype chat_completion = ChatCompletion (choices: "chat_choice list")

definition first_content :: "chat_completion \<Rightarrow> jsstring option" where
  "first_content response =
     (case choices response of
        [] \<Rightarrow> None
      | ch # _ \<Rightarrow> (case message ch of None \<Rightarrow> None | Some m \<Rightarrow> content m))"

text \<open>
  One call of \<open>openai.chat.completions.create\<close>, with the key the client was built with
  (\<open>getOpenAIClient\<close>). Messages are pairs of role and content.
\<close>

record chat_request =
  apiKey :: "jsstring option"
  model :: jsstring
  messages :: "(jsstring \<times> jsstring) list"
  temperature :: rat
  max_tokens :: nat

text \<open>One call of \<open>fetch\<close> on the search URL: its query parameters and its timeout.\<close>

record search_request =
  endpoint :: jsstring
  param_q :: jsstring
  param_api_key :: jsstring
  param_num :: jsstring
  param_engine :: jsstring
  timeout_ms :: nat

text \<open>
  The body of a search response, following the collaborator's contract: zero or more
  results, each optionally carrying a title, a snippet and a link, all strings. The ways a
  body can be malformed and make the handler throw are kept: the body is \<open>null\<close>
  (\<open>NullData\<close>), \<open>organic_results\<close> is a truthy value without \<open>slice\<close> (\<open>NotArray\<close>), an
  entry of the array is \<open>null\<close> (\<open>NullItem\<close>). \<open>NoResults\<close> is an absent or falsy
  \<open>organic_results\<close>. Field values that are not strings are outside this model.
\<close>

record search_result =
  title :: "jsstring option"
  snippet :: "jsstring option"
  link :: "jsstring option"

datatype result_item = NullItem | ResultItem search_result

datatype organic_results = NoResults | NotArray | ResultArray "result_item list"

datatype search_data = NullData | SearchData organic_results

record fetch_response =
  ok :: bool
  json_body :: "thrown + search_data"

text \<open>
  What the handler does to the outside world, in order: calls of the two collaborators and
  the \<open>console.error\<close> of the catch block.
\<close>

datatype event =
    ChatCall chat_request
  | FetchCall search_request
  | ConsoleError thrown

text \<open>
  The environment of one request: the two credentials of \<open>process.env\<close>, and the behaviour
  of the collaborators. A collaborator answers a call by throwing (a rejected promise: a
  network error, a timeout, an API error) or by returning; its answer may depend on the
  number of events before the call, so that the same request can be answered differently
  each time. The text of a \<open>TypeError\<close> raised by the runtime is engine-specific and is a
  parameter.
\<close>

record env =
  OPENAI_API_KEY :: "jsstring option"
  SERPAPI_API_KEY :: "jsstring option"
  chat_create :: "nat \<Rightarrow> chat_request \<Rightarrow> thrown + chat_completion"
  fetch :: "nat \<Rightarrow> search_request \<Rightarrow> thrown + fetch_response"
  type_error_message :: jsstring

definition getSerpApiKey :: "env \<Rightarrow> jsstring" where
  "getSerpApiKey env = or_else (SERPAPI_API_KEY env) []"

section \<open>Searcher agent\<close>

definition planner_prompt :: jsstring where
  "planner_prompt =
     js ''You are a research assistant. Given a topic, generate 3 concise and diverse web ''
     @ js ''search queries that would help gather information for writing a news article. ''
     @ js ''Return only the queries, one per line, no numbering.''"

definition planner_request :: "env \<Rightarrow> jsstring \<Rightarrow> chat_request" where
  "planner_request env topic =
     \<lparr> apiKey = OPENAI_API_KEY env,
       model = js ''gpt-4o'',
       messages = [(js ''system'', planner_prompt), (js ''user'', js ''Topic: '' @ topic)],
       temperature = 4 / 10,
       max_tokens = 200 \<rparr>"

text \<open>The query-derivation step: lines 36 to 41 of the route.\<close>

definition derive_queries :: "chat_completion \<Rightarrow> jsstring \<Rightarrow> jsstring list" where
  "derive_queries queryResponse topic =
     (let queriesText = or_else (first_content queryResponse) topic
      in take 3 (filter truthy_str (map trim (split_nl queriesText))))"

definition search_url :: "env \<Rightarrow> jsstring \<Rightarrow> search_request" where
  "search_url env query =
     \<lparr> endpoint = js ''https://serpapi.com/search.json'',
       param_q = query,
       param_api_key = getSerpApiKey env,
       param_num = js ''3'',
       param_engine = js ''google'',
       timeout_ms = 10000 \<rparr>"

text \<open>The composite text of one result: lines 62 to 68.\<close>

definition make_snippet :: "search_result \<Rightarrow> jsstring" where
  "make_snippet result =
     array_join (js ''\<newline>'')
       (filter truthy_str
          [or_else (title result) [],
           or_else (snippet result) [],
           (case link result of
              None \<Rightarrow> []
            | Some l \<Rightarrow> if truthy_str l then js ''Source: '' @ l else [])])"

text \<open>
  The inner loop over the sliced results. Reading a property of a \<open>null\<close> entry throws,
  and what was pushed before stays pushed.
\<close>

fun push_results ::
  "env \<Rightarrow> result_item list \<Rightarrow> jsstring list \<Rightarrow> (thrown + unit) \<times> jsstring list" where
  "push_results env [] allSnippets = (Inr (), allSnippets)"
| "push_results env (NullItem # rest) allSnippets =
     (Inl (ErrorObj (type_error_message env)), allSnippets)"
| "push_results env (ResultItem result # rest) allSnippets =
     (let s = make_snippet result
      in push_results env rest (if truthy_str s then allSnippets @ [s] else allSnippets))"

text \<open>
  The body of the \<open>try\<close> block for one query: the outcome (thrown, or finished, which
  covers the \<open>continue\<close> on a response that is not ok), the snippets and the events after it.
\<close>

definition query_attempt ::
  "env \<Rightarrow> jsstring \<Rightarrow> jsstring list \<Rightarrow> event list
     \<Rightarrow> (thrown + unit) \<times> jsstring list \<times> event list" where
  "query_attempt env query allSnippets tr =
     (let url = search_url env query; tr' = tr @ [FetchCall url]
      in case fetch env (length tr) url of
           Inl e \<Rightarrow> (Inl e, allSnippets, tr')
         | Inr res \<Rightarrow>
             if \<not> ok res then (Inr (), allSnippets, tr')
             else (case json_body res of
                     Inl e \<Rightarrow> (Inl e, allSnippets, tr')
                   | Inr NullData \<Rightarrow> (Inl (ErrorObj (type_error_message env)), allSnippets, tr')
                   | Inr (SearchData NotArray) \<Rightarrow>
                       (Inl (ErrorObj (type_error_message env)), allSnippets, tr')
                   | Inr (SearchData NoResults) \<Rightarrow>
                       (case push_results env (take 3 []) allSnippets of
                          (r, acc) \<Rightarrow> (r, acc, tr'))
                   | Inr (SearchData (ResultArray results)) \<Rightarrow>
                       (case push_results env (take 3 results) allSnippets of
                          (r, acc) \<Rightarrow> (r, acc, tr'))))"

text \<open>The loop over the queries; the \<open>catch\<close> block continues with the next query.\<close>

fun search_loop ::
  "env \<Rightarrow> jsstring list \<Rightarrow> jsstring list \<Rightarrow> event list
     \<Rightarrow> (thrown + unit) \<times> jsstring list \<times> event list" where
  "search_loop env [] allSnippets tr = (Inr (), allSnippets, tr)"
| "search_loop env (query # rest) allSnippets tr =
     (case query_attempt env query allSnippets tr of
        (Inl e, acc, tr') \<Rightarrow> search_loop env rest acc tr'
      | (Inr u, acc, tr') \<Rightarrow> search_loop env rest acc tr')"

definition no_results_snippet :: "jsstring \<Rightarrow> jsstring" where
  "no_results_snippet topic =
     js ''No search results were found. Write the article based on your general knowledge of: ''
     @ topic"

text \<open>The retrieval part of the agent: lines 44 to 83.\<close>

definition retriever ::
  "env \<Rightarrow> jsstring \<Rightarrow> jsstring list \<Rightarrow> event list \<Rightarrow> (thrown + jsstring list) \<times> event list" where
  "retriever env topic queries tr =
     (case search_loop env queries [] tr of
        (Inl e, allSnippets, tr') \<Rightarrow> (Inl e, tr')
      | (Inr u, allSnippets, tr') \<Rightarrow>
          (Inr (if length allSnippets = 0 then allSnippets @ [no_results_snippet topic]
                else allSnippets), tr'))"

definition searcherAgent ::
  "env \<Rightarrow> jsstring \<Rightarrow> event list \<Rightarrow> (thrown + jsstring list) \<times> event list" where
  "searcherAgent env topic tr =
     (let req = planner_request env topic
      in case chat_create env (length tr) req of
           Inl e \<Rightarrow> (Inl e, tr @ [ChatCall req])
         | Inr queryResponse \<Rightarrow>
             retriever env topic (derive_queries queryResponse topic) (tr @ [ChatCall req]))"

section \<open>Writer and editor agents\<close>

definition writer_prompt :: jsstring where
  "writer_prompt =
     js ''You are an expert journalist and article writer. Using the research data provided, ''
     @ js ''write a well-structured, factual, and engaging news article.\<newline>\<newline>''
     @ js ''Requirements:\<newline>''
     @ js ''- Write a compelling headline\<newline>''
     @ js ''- Include a strong lead paragraph\<newline>''
     @ js ''- Organize with clear sections\<newline>''
     @ js ''- Maintain a neutral, professional journalistic tone\<newline>''
     @ js ''- Use facts from the research data where available\<newline>''
     @ js ''- Aim for 600-900 words\<newline>''
     @ js ''- Do not fabricate quotes or statistics not present in the research''"

definition writer_request :: "env \<Rightarrow> jsstring \<Rightarrow> jsstring list \<Rightarrow> chat_request" where
  "writer_request env topic researchData =
     (let researchContext = array_join (js ''\<newline>\<newline>---\<newline>\<newline>'') researchData
      in \<lparr> apiKey = OPENAI_API_KEY env,
            model = js ''gpt-4o'',
            messages =
              [(js ''system'', writer_prompt),
               (js ''user'',
                js ''Topic: '' @ topic @ js ''\<newline>\<newline>Research Data:\<newline>''
                @ researchContext)],
            temperature = 6 / 10,
            max_tokens = 2000 \<rparr>)"

definition writerAgent ::
  "env \<Rightarrow> jsstring \<Rightarrow> jsstring list \<Rightarrow> event list \<Rightarrow> (thrown + jsstring) \<times> event list" where
  "writerAgent env topic researchData tr =
     (let req = writer_request env topic researchData
      in case chat_create env (length tr) req of
           Inl e \<Rightarrow> (Inl e, tr @ [ChatCall req])
         | Inr response \<Rightarrow> (Inr (or_else (first_content response) []), tr @ [ChatCall req]))"

text \<open>The dash of the seventh bullet is U+2014.\<close>

definition editor_prompt :: jsstring where
  "editor_prompt =
     js ''You are a senior newspaper editor with decades of experience. Refine the following ''
     @ js ''article draft to meet professional journalism standards.\<newline>\<newline>''
     @ js ''Your editorial pass should:\<newline>''
     @ js ''- Improve clarity and readability\<newline>''
     @ js ''- Tighten prose and eliminate redundancy\<newline>''
     @ js ''- Ensure a consistent professional tone\<newline>''
     @ js ''- Fix any grammatical or structural issues\<newline>''
     @ js ''- Strengthen the headline and lead\<newline>''
     @ js ''- Ensure smooth paragraph transitions\<newline>''
     @ js ''- Maintain factual accuracy '' @ [0x2014] @ js '' do not add new information''
     @ js ''\<newline>\<newline>''
     @ js ''Return only the final polished article, no commentary.''"

definition editor_request :: "env \<Rightarrow> jsstring \<Rightarrow> chat_request" where
  "editor_request env draft =
     \<lparr> apiKey = OPENAI_API_KEY env,
       model = js ''gpt-4o'',
       messages = [(js ''system'', editor_prompt), (js ''user'', draft)],
       temperature = 3 / 10,
       max_tokens = 2000 \<rparr>"

definition editorAgent ::
  "env \<Rightarrow> jsstring \<Rightarrow> event list \<Rightarrow> (thrown + jsstring) \<times> event list" where
  "editorAgent env draft tr =
     (let req = editor_request env draft
      in case chat_create env (length tr) req of
           Inl e \<Rightarrow> (Inl e, tr @ [ChatCall req])
         | Inr response \<Rightarrow> (Inr (or_else (first_content response) draft), tr @ [ChatCall req]))"

section \<open>Orchestrator\<close>

text \<open>
  A request is what \<open>request.json()\<close> gives: the parsed body, or the exception of the parse.
  A response is the object given to \<open>NextResponse.json\<close>, as its list of fields, and the
  status (200 when none is given).
\<close>

datatype request = Request (request_json: "thrown + json")

datatype response = Response (fields: "(string \<times> jsstring) list") (status: nat)

text \<open>
  \<open>const { topic } = body\<close>: destructuring \<open>null\<close> throws a \<open>TypeError\<close>; an object gives
  its property or \<open>undefined\<close>; a boolean, number, string or array has no such property.
\<close>

definition destructure_topic :: "env \<Rightarrow> json \<Rightarrow> thrown + jsval" where
  "destructure_topic env body =
     (case body of
        JNull \<Rightarrow> Inl (ErrorObj (type_error_message env))
      | JObj props \<Rightarrow> Inr (map_of props (js ''topic''))
      | _ \<Rightarrow> Inr None)"

fun typeof :: "jsval \<Rightarrow> string" where
  "typeof None = ''undefined''"
| "typeof (Some JNull) = ''object''"
| "typeof (Some (JBool _)) = ''boolean''"
| "typeof (Some (JNum _)) = ''number''"
| "typeof (Some (JStr _)) = ''string''"
| "typeof (Some (JArr _)) = ''object''"
| "typeof (Some (JObj _)) = ''object''"

text \<open>
  The guard of line 164. \<open>topic.trim()\<close> is reached on strings only, the disjunction
  being evaluated from the left.
\<close>

definition topic_rejected :: "jsval \<Rightarrow> bool" where
  "topic_rejected topic \<longleftrightarrow>
     \<not> truthy topic \<or> typeof topic \<noteq> ''string''
     \<or> (case topic of Some (JStr t) \<Rightarrow> length (trim t) = 0 | _ \<Rightarrow> True)"

definition env_truthy :: "jsstring option \<Rightarrow> bool" where
  "env_truthy v = (case v of None \<Rightarrow> False | Some s \<Rightarrow> truthy_str s)"

text \<open>
  The steps after the two guards, for a topic that is a string.
\<close>

definition pipeline :: "env \<Rightarrow> jsstring \<Rightarrow> (thrown + response) \<times> event list" where
  "pipeline env topic =
     (case searcherAgent env (trim topic) [] of
        (Inl e, tr1) \<Rightarrow> (Inl e, tr1)
      | (Inr researchData, tr1) \<Rightarrow>
          (case writerAgent env (trim topic) researchData tr1 of
             (Inl e, tr2) \<Rightarrow> (Inl e, tr2)
           | (Inr draft, tr2) \<Rightarrow>
               if \<not> truthy_str draft
               then (Inr (Response [(''error'', js ''Failed to generate article draft.'')] 500),
                     tr2)
               else (case editorAgent env draft tr2 of
                       (Inl e, tr3) \<Rightarrow> (Inl e, tr3)
                     | (Inr article, tr3) \<Rightarrow>
                         (Inr (Response [(''article'', article)] 200), tr3))))"

text \<open>The \<open>try\<close> block of \<open>POST\<close>.\<close>

definition POST_try :: "env \<Rightarrow> request \<Rightarrow> (thrown + response) \<times> event list" where
  "POST_try env request =
     (case request_json request of
        Inl e \<Rightarrow> (Inl e, [])
      | Inr body \<Rightarrow>
          (case destructure_topic env body of
             Inl e \<Rightarrow> (Inl e, [])
           | Inr topic \<Rightarrow>
               if topic_rejected topic
               then (Inr (Response [(''error'', js ''A valid topic is required.'')] 400), [])
               else if \<not> env_truthy (OPENAI_API_KEY env)
               then (Inr (Response [(''error'', js ''OpenAI API key is not configured.'')] 500),
                     [])
               else (case topic of
                       Some (JStr t) \<Rightarrow> pipeline env t
                     | _ \<Rightarrow>
                       (Inr (Response [(''error'', js ''A valid topic is required.'')] 400),
                        []))))"

text \<open>
  \<open>POST\<close> with its \<open>catch\<close> block: the error is logged and turned into a response.
\<close>

definition POST :: "env \<Rightarrow> request \<Rightarrow> response \<times> event list" where
  "POST env request =
     (case POST_try env request of
        (Inr resp, tr) \<Rightarrow> (resp, tr)
      | (Inl error, tr) \<Rightarrow>
          (let message =
             (case error of ErrorObj m \<Rightarrow> m | NonError \<Rightarrow> js ''Internal server error'')
           in (Response [(''error'', message)] 500, tr @ [ConsoleError error])))"


section \<open>Notions used to state the properties\<close>

text \<open>The entries the inner loop reaches: those before the first \<open>null\<close> entry.\<close>

fun leading_items :: "result_item list \<Rightarrow> search_result list" where
  "leading_items [] = []"
| "leading_items (NullItem # rest) = []"
| "leading_items (ResultItem r # rest) = r # leading_items rest"

text \<open>
  A field of a result is present when it holds a non-empty string; an empty string is as
  good as a missing field.
\<close>

definition present :: "jsstring option \<Rightarrow> jsstring list" where
  "present f = (case f of None \<Rightarrow> [] | Some s \<Rightarrow> if s = [] then [] else [s])"

text \<open>
  The snippets one search call contributes: none when the call throws, the status is not a
  success, or the body is malformed or has no results.
\<close>

definition contribution :: "thrown + fetch_response \<Rightarrow> jsstring list" where
  "contribution outcome =
     (case outcome of
        Inl e \<Rightarrow> []
      | Inr res \<Rightarrow>
          if ok res
          then (case json_body res of
                  Inr (SearchData (ResultArray results)) \<Rightarrow>
                    filter truthy_str (map make_snippet (leading_items (take 3 results)))
                | _ \<Rightarrow> [])
          else [])"

text \<open>A request that passes both guards of \<open>POST\<close>, with the string \<open>t\<close> as its topic.\<close>

definition accepted :: "env \<Rightarrow> request \<Rightarrow> jsstring \<Rightarrow> bool" where
  "accepted env req t \<longleftrightarrow>
     (case request_json req of
        Inl e \<Rightarrow> False
      | Inr body \<Rightarrow>
          destructure_topic env body = Inr (Some (JStr t))
          \<and> \<not> topic_rejected (Some (JStr t))
          \<and> env_truthy (OPENAI_API_KEY env))"

definition is_console_error :: "event \<Rightarrow> bool" where
  "is_console_error ev = (case ev of ConsoleError _ \<Rightarrow> True | _ \<Rightarrow> False)"

text \<open>
  \<open>stage_throws env req e tr\<close>: inside the \<open>try\<close> block of \<open>POST\<close>, a stage throws \<open>e\<close>
  after the events \<open>tr\<close>: the parse of the body, the destructuring, the searcher (its
  planner call), the writer or the editor.
\<close>

inductive stage_throws :: "env \<Rightarrow> request \<Rightarrow> thrown \<Rightarrow> event list \<Rightarrow> bool"
  for env :: env and req :: request where
  body_parsing: "request_json req = Inl e \<Longrightarrow> stage_throws env req e []"
| destructuring:
    "request_json req = Inr body \<Longrightarrow> destructure_topic env body = Inl e
       \<Longrightarrow> stage_throws env req e []"
| planner:
    "accepted env req t \<Longrightarrow> searcherAgent env (trim t) [] = (Inl e, tr1)
       \<Longrightarrow> stage_throws env req e tr1"
| drafter:
    "accepted env req t \<Longrightarrow> searcherAgent env (trim t) [] = (Inr researchData, tr1)
       \<Longrightarrow> writerAgent env (trim t) researchData tr1 = (Inl e, tr2)
       \<Longrightarrow> stage_throws env req e tr2"
| refiner:
    "accepted env req t \<Longrightarrow> searcherAgent env (trim t) [] = (Inr researchData, tr1)
       \<Longrightarrow> writerAgent env (trim t) researchData tr1 = (Inr draft, tr2)
       \<Longrightarrow> truthy_str draft
       \<Longrightarrow> editorAgent env draft tr2 = (Inl e, tr3)
       \<Longrightarrow> stage_throws env req e tr3"

section \<open>Scripted collaborators\<close>

text \<open>
  Environments for concrete runs: the generative-text key is set, the search key is not,
  and each collaborator answers from a script indexed by the number of events so far.
\<close>

definition completion_of :: "jsstring option \<Rightarrow> chat_completion" where
  "completion_of c = ChatCompletion [ChatChoice (Some (ChatMessage c))]"

definition scripted_env ::
  "(nat \<Rightarrow> thrown + chat_completion) \<Rightarrow> (nat \<Rightarrow> thrown + fetch_response) \<Rightarrow> env" where
  "scripted_env chat_script fetch_script =
     \<lparr> OPENAI_API_KEY = Some (js ''sk-test''),
       SERPAPI_API_KEY = None,
       chat_create = (\<lambda>n req. chat_script n),
       fetch = (\<lambda>n req. fetch_script n),
       type_error_message = js ''TypeError'' \<rparr>"

definition topic_request :: "jsstring \<Rightarrow> request" where
  "topic_request t = Request (Inr (JObj [(js ''topic'', JStr t)]))"

text \<open>A search service that answers every call with a status that is not a success.\<close>

definition refusing_search :: "nat \<Rightarrow> thrown + fetch_response" where
  "refusing_search n = Inr \<lparr> ok = False, json_body = Inr NullData \<rparr>"

text \<open>
  A search service that fails in three ways: the first call times out, the second has a
  status that is not a success, every later one has a body that is not JSON.
\<close>

definition failing_search :: "nat \<Rightarrow> thrown + fetch_response" where
  "failing_search n =
     (if n = 0 then Inl (ErrorObj (js ''The operation was aborted due to timeout''))
      else if n = 1 then Inr \<lparr> ok = False, json_body = Inr (SearchData NoResults) \<rparr>
      else Inr \<lparr> ok = True, json_body = Inl (ErrorObj (js ''Unexpected token'')) \<rparr>)"

text \<open>
  Search results for a concrete run: one with a title and a link, one whose fields are all
  missing or empty, and a service that returns four results to every call.
\<close>

definition sample_result :: "string \<Rightarrow> search_result" where
  "sample_result s = \<lparr> title = Some (js s), snippet = None, link = Some (js ''u'') \<rparr>"

definition blank_result :: search_result where
  "blank_result = \<lparr> title = None, snippet = Some [], link = None \<rparr>"

definition four_results_search :: "nat \<Rightarrow> thrown + fetch_response" where
  "four_results_search n =
     Inr \<lparr> ok = True,
           json_body = Inr (SearchData (ResultArray
             [ResultItem (sample_result ''1''), ResultItem blank_result,
              ResultItem (sample_result ''3''), ResultItem (sample_result ''4'')])) \<rparr>"

text \<open>
  Scripts for the generative-text service. With a plan of one query, the planner is call 0,
  the search is call 1, the writer is call 2 and the editor is call 3.
\<close>

definition news :: "thrown + chat_completion" where
  "news = Inr (completion_of (Some (js ''news'')))"

definition empty_draft_chat :: "nat \<Rightarrow> thrown + chat_completion" where
  "empty_draft_chat n = (if n = 2 then Inr (completion_of None) else news)"

definition silent_editor_chat :: "nat \<Rightarrow> thrown + chat_completion" where
  "silent_editor_chat n = (if n = 3 then Inr (completion_of (Some [])) else news)"

definition broken_writer_chat :: "nat \<Rightarrow> thrown + chat_completion" where
  "broken_writer_chat n = (if n = 2 then Inl (ErrorObj (js ''Connection error.'')) else news)"

section \<open>Auxiliary facts\<close>

lemma push_results_snd:
  "snd (push_results env rs acc) = acc @ filter truthy_str (map make_snippet (leading_items rs))"
  by (induction env rs acc rule: push_results.induct) (simp_all add: Let_def)

lemma query_attempt_trace:
  "snd (snd (query_attempt env q acc tr)) = tr @ [FetchCall (search_url env q)]"
  by (simp add: query_attempt_def Let_def split: sum.split search_data.split organic_results.split prod.split)

lemma query_attempt_snippets:
  "fst (snd (query_attempt env q acc tr))
     = acc @ contribution (fetch env (length tr) (search_url env q))"
proof -
  have "\<And>rs r acc'. push_results env rs acc = (r, acc') \<Longrightarrow>
          acc' = acc @ filter truthy_str (map make_snippet (leading_items rs))"
    using push_results_snd by (metis snd_conv)
  then show ?thesis
    by (simp add: query_attempt_def contribution_def Let_def
        split: sum.split search_data.split organic_results.split prod.split)
qed

lemma search_loop_no_throw: "fst (search_loop env qs acc tr) = Inr ()"
  by (induction qs arbitrary: acc tr) (auto split: prod.split sum.split)

lemma search_loop_step:
  "search_loop env (q # qs) acc tr =
     search_loop env qs (fst (snd (query_attempt env q acc tr)))
       (snd (snd (query_attempt env q acc tr)))"
  by (simp split: prod.split sum.split)

lemma search_loop_trace:
  "snd (snd (search_loop env qs acc tr)) = tr @ map (\<lambda>q. FetchCall (search_url env q)) qs"
  by (induction qs arbitrary: acc tr)
     (simp_all add: search_loop_step query_attempt_trace del: search_loop.simps(2))

lemma search_loop_fruitless:
  "(\<And>n q. contribution (fetch env n (search_url env q)) = [])
     \<Longrightarrow> fst (snd (search_loop env qs acc tr)) = acc"
  by (induction qs arbitrary: acc tr)
     (simp_all add: search_loop_step query_attempt_snippets del: search_loop.simps(2))

lemma contribution_cases:
  "contribution outcome = [] \<or>
   (\<exists>rs. contribution outcome = filter truthy_str (map make_snippet rs))"
  by (auto simp: contribution_def split: sum.split search_data.split organic_results.split)

lemma contribution_no_empty: "[] \<notin> set (contribution outcome)"
  using contribution_cases [of outcome] by (auto simp: truthy_str_def)

lemma search_loop_no_empty:
  "[] \<notin> set acc \<Longrightarrow> [] \<notin> set (fst (snd (search_loop env qs acc tr)))"
proof (induction qs arbitrary: acc tr)
  case Nil
  then show ?case by simp
next
  case (Cons q qs)
  have "[] \<notin> set (contribution (fetch env (length tr) (search_url env q)))"
    by (rule contribution_no_empty)
  with Cons.prems have "[] \<notin> set (fst (snd (query_attempt env q acc tr)))"
    by (simp add: query_attempt_snippets)
  then have "[] \<notin> set (fst (snd (search_loop env qs (fst (snd (query_attempt env q acc tr)))
                                   (snd (snd (query_attempt env q acc tr))))))"
    by (rule Cons.IH)
  then show ?case
    by (simp add: search_loop_step del: search_loop.simps(2))
qed

lemma searcherAgent_events:
  "set (snd (searcherAgent env t tr))
     \<subseteq> set tr \<union> {ChatCall (planner_request env t)} \<union> range FetchCall"
proof -
  have "set (snd (retriever env t qs tr')) \<subseteq> set tr' \<union> range FetchCall" for qs tr'
  proof -
    obtain r acc tr'' where sl: "search_loop env qs [] tr' = (r, acc, tr'')"
      by (cases "search_loop env qs [] tr'") auto
    have "tr'' = tr' @ map (\<lambda>q. FetchCall (search_url env q)) qs"
      using search_loop_trace [of env qs "[]" tr'] sl by simp
    then show ?thesis using sl by (auto simp: retriever_def split: sum.split)
  qed
  note retr = this
  show ?thesis
  proof (cases "chat_create env (length tr) (planner_request env t)")
    case (Inl e)
    then show ?thesis by (auto simp: searcherAgent_def Let_def)
  next
    case (Inr resp)
    then have "snd (searcherAgent env t tr)
                 = snd (retriever env t (derive_queries resp t) (tr @ [ChatCall (planner_request env t)]))"
      by (simp add: searcherAgent_def Let_def)
    then show ?thesis
      using retr [of "derive_queries resp t" "tr @ [ChatCall (planner_request env t)]"] by auto
  qed
qed

lemma writerAgent_trace:
  "snd (writerAgent env t rd tr) = tr @ [ChatCall (writer_request env t rd)]"
  by (simp add: writerAgent_def Let_def split: sum.split)

lemma editorAgent_trace:
  "snd (editorAgent env d tr) = tr @ [ChatCall (editor_request env d)]"
  by (simp add: editorAgent_def Let_def split: sum.split)

lemma temperature_requests:
  "temperature (planner_request env t) = 4 / 10"
  "temperature (writer_request env t rd) = 6 / 10"
  "temperature (editor_request env d) = 3 / 10"
  by (simp_all add: planner_request_def writer_request_def editor_request_def Let_def)

lemma editor_request_distinct:
  "planner_request env t \<noteq> editor_request env d"
  "writer_request env t rd \<noteq> editor_request env d"
proof -
  show "planner_request env t \<noteq> editor_request env d"
  proof
    assume "planner_request env t = editor_request env d"
    then have "temperature (planner_request env t) = temperature (editor_request env d)"
      by simp
    then show False by (simp add: temperature_requests)
  qed
  show "writer_request env t rd \<noteq> editor_request env d"
  proof
    assume "writer_request env t rd = editor_request env d"
    then have "temperature (writer_request env t rd) = temperature (editor_request env d)"
      by simp
    then show False by (simp add: temperature_requests)
  qed
qed

lemma accepted_POST_try: "accepted env req t \<Longrightarrow> POST_try env req = pipeline env t"
  by (auto simp: accepted_def POST_try_def split: sum.splits)

lemma POST_of_try_Inr: "POST_try env req = (Inr resp, tr) \<Longrightarrow> POST env req = (resp, tr)"
  by (simp add: POST_def)

lemma POST_of_try_Inl:
  "POST_try env req = (Inl e, tr) \<Longrightarrow>
     POST env req =
       (Response [(''error'', case e of ErrorObj m \<Rightarrow> m | NonError \<Rightarrow> js ''Internal server error'')] 500,
        tr @ [ConsoleError e])"
  by (simp add: POST_def)

lemma retriever_total:
  "\<exists>snips. fst (retriever env topic queries tr) = Inr snips \<and> snips \<noteq> []
     \<and> (fst (snd (search_loop env queries [] tr)) = [] \<longrightarrow> snips = [no_results_snippet topic])"
proof -
  obtain r acc tr' where sl: "search_loop env queries [] tr = (r, acc, tr')"
    by (cases "search_loop env queries [] tr") auto
  have "r = Inr ()"
    using search_loop_no_throw [of env queries "[]" tr] sl by simp
  then show ?thesis
    using sl by (simp add: retriever_def)
qed

lemma searcherAgent_trace:
  assumes "chat_create env (length tr) (planner_request env t) = Inr plan"
  shows "snd (searcherAgent env t tr)
           = tr @ ChatCall (planner_request env t)
                  # map (\<lambda>q. FetchCall (search_url env q)) (derive_queries plan t)"
proof -
  let ?tr' = "tr @ [ChatCall (planner_request env t)]"
  let ?qs = "derive_queries plan t"
  obtain r acc tr'' where sl: "search_loop env ?qs [] ?tr' = (r, acc, tr'')"
    by (cases "search_loop env ?qs [] ?tr'") auto
  have "tr'' = ?tr' @ map (\<lambda>q. FetchCall (search_url env q)) ?qs"
    using search_loop_trace [of env ?qs "[]" ?tr'] sl by simp
  then have "snd (retriever env t ?qs ?tr')
               = tr @ ChatCall (planner_request env t)
                  # map (\<lambda>q. FetchCall (search_url env q)) ?qs"
    using sl by (cases r) (simp_all add: retriever_def)
  then show ?thesis
    using assms by (simp add: searcherAgent_def Let_def)
qed

text \<open>
  A topic that passes the guard is a string that is not blank, so the last case of
  \<open>POST_try\<close> is never reached.
\<close>

lemma passing_topic_is_string:
  "\<not> topic_rejected topic \<Longrightarrow> \<exists>t. topic = Some (JStr t) \<and> trim t \<noteq> []"
  by (cases topic rule: typeof.cases) (simp_all add: topic_rejected_def)

section \<open>Retriever\<close>

text \<open>
  C1. Whatever the planned queries and whatever the search service does on each call
  (throw, answer with a failing status, answer with a malformed body), the retrieval part
  of \<open>searcherAgent\<close> does not throw and returns a non-empty list: the accumulated snippets,
  or the single synthetic no-results snippet when nothing was accumulated. In particular,
  when no call contributes anything, the result is exactly that one snippet.
\<close>

theorem retriever_never_throws:
  "(\<exists>snips. fst (retriever env topic queries tr) = Inr snips \<and> snips \<noteq> []
      \<and> snips = (if fst (snd (search_loop env queries [] tr)) = []
                  then [no_results_snippet topic]
                  else fst (snd (search_loop env queries [] tr))))
   \<and> ((\<forall>n q. contribution (fetch env n (search_url env q)) = [])
        \<longrightarrow> fst (retriever env topic queries tr) = Inr [no_results_snippet topic])"
proof -
  obtain r acc tr' where sl: "search_loop env queries [] tr = (r, acc, tr')"
    by (cases "search_loop env queries [] tr") auto
  have r: "r = Inr ()"
    using search_loop_no_throw [of env queries "[]" tr] sl by simp
  have "acc = []" if "\<forall>n q. contribution (fetch env n (search_url env q)) = []"
    using search_loop_fruitless [of env queries "[]" tr] that sl by simp
  then show ?thesis
    using sl r by (simp add: retriever_def)
qed

theorem retriever_never_throws_witness:
  "(\<forall>n q. contribution (fetch (scripted_env (\<lambda>n. Inl NonError) failing_search) n
              (search_url (scripted_env (\<lambda>n. Inl NonError) failing_search) q)) = [])
   \<and> fst (retriever (scripted_env (\<lambda>n. Inl NonError) failing_search) (js ''AI'')
            [js ''a'', js ''b'', js ''c''] [])
       = Inr [no_results_snippet (js ''AI'')]"
proof -
  have "\<forall>n q. contribution (fetch (scripted_env (\<lambda>n. Inl NonError) failing_search) n
                   (search_url (scripted_env (\<lambda>n. Inl NonError) failing_search) q)) = []"
    by (simp add: contribution_def scripted_env_def failing_search_def)
  then show ?thesis
    using retriever_never_throws
      [of "scripted_env (\<lambda>n. Inl NonError) failing_search" "js ''AI''"
          "[js ''a'', js ''b'', js ''c'']" "[]"]
    by blast
qed

lemma make_snippet_present:
  "make_snippet r =
     array_join (js ''\<newline>'')
       (present (title r) @ present (snippet r) @ map ((@) (js ''Source: '')) (present (link r)))"
  by (simp add: make_snippet_def present_def or_else_def truthy_str_def js_def split: option.split)

lemma leading_items_length: "length (leading_items rs) \<le> length rs"
  by (induction rs rule: leading_items.induct) simp_all

lemma contribution_length: "length (contribution outcome) \<le> 3"
proof -
  have "length (filter truthy_str (map make_snippet (leading_items (take 3 rs)))) \<le> 3" for rs
  proof -
    have "length (filter truthy_str (map make_snippet (leading_items (take 3 rs))))
            \<le> length (leading_items (take 3 rs))"
      using length_filter_le [of truthy_str "map make_snippet (leading_items (take 3 rs))"]
      by simp
    also have "\<dots> \<le> length (take 3 rs)" by (rule leading_items_length)
    also have "\<dots> \<le> 3" by simp
    finally show ?thesis .
  qed
  then show ?thesis
    by (auto simp: contribution_def split: sum.split search_data.split organic_results.split)
qed

text \<open>
  C6. The composite text of a result is the newline-join of its present fields, in the
  order title, snippet, "Source: " followed by the link; a missing or empty field leaves no
  trace. A result without any present field pushes nothing, and no pushed snippet is the
  empty string. A call that returns an array contributes the non-empty composites of its
  first three entries only (up to the first \<open>null\<close> entry), so at most three snippets.
\<close>

theorem snippet_composition:
  "make_snippet r =
     array_join (js ''\<newline>'')
       (present (title r) @ present (snippet r) @ map ((@) (js ''Source: '')) (present (link r)))
   \<and> (present (title r) = [] \<and> present (snippet r) = [] \<and> present (link r) = []
        \<longrightarrow> push_results env [ResultItem r] acc = (Inr (), acc))
   \<and> [] \<notin> set (snd (push_results env rs []))
   \<and> (fetch env (length tr) (search_url env q) = Inr res \<and> ok res
        \<and> json_body res = Inr (SearchData (ResultArray rs))
        \<longrightarrow> fst (snd (query_attempt env q acc tr))
              = acc @ filter truthy_str (map make_snippet (leading_items (take 3 rs))))
   \<and> length (fst (snd (query_attempt env q acc tr))) \<le> length acc + 3"
proof -
  have a: "make_snippet r =
     array_join (js ''\<newline>'')
       (present (title r) @ present (snippet r) @ map ((@) (js ''Source: '')) (present (link r)))"
    by (rule make_snippet_present)
  have b: "push_results env [ResultItem r] acc = (Inr (), acc)"
    if "present (title r) = [] \<and> present (snippet r) = [] \<and> present (link r) = []"
    using that by (simp add: a truthy_str_def)
  have c: "[] \<notin> set (snd (push_results env rs []))"
    by (simp add: push_results_snd truthy_str_def)
  have d: "fst (snd (query_attempt env q acc tr))
              = acc @ filter truthy_str (map make_snippet (leading_items (take 3 rs)))"
    if "fetch env (length tr) (search_url env q) = Inr res \<and> ok res
        \<and> json_body res = Inr (SearchData (ResultArray rs))"
    using that by (simp add: query_attempt_snippets contribution_def)
  have e: "length (fst (snd (query_attempt env q acc tr))) \<le> length acc + 3"
    using contribution_length [of "fetch env (length tr) (search_url env q)"]
    by (simp add: query_attempt_snippets)
  from a b c d e show ?thesis by blast
qed

theorem snippet_composition_witness:
  "present (title blank_result) = [] \<and> present (snippet blank_result) = []
   \<and> present (link blank_result) = []
   \<and> push_results (scripted_env (\<lambda>n. Inl NonError) four_results_search)
        [ResultItem blank_result] [js ''kept''] = (Inr (), [js ''kept''])
   \<and> fst (snd (query_attempt (scripted_env (\<lambda>n. Inl NonError) four_results_search) (js ''q'')
                  [js ''kept''] []))
       = [js ''kept'', js ''1\<newline>Source: u'', js ''3\<newline>Source: u'']"
proof -
  let ?env = "scripted_env (\<lambda>n. Inl NonError) four_results_search"
  let ?rs = "[ResultItem (sample_result ''1''), ResultItem blank_result,
              ResultItem (sample_result ''3''), ResultItem (sample_result ''4'')]"
  have blank: "present (title blank_result) = [] \<and> present (snippet blank_result) = []
      \<and> present (link blank_result) = []"
    by (simp add: blank_result_def present_def)
  have call: "fetch ?env (length ([]::event list)) (search_url ?env (js ''q''))
                = Inr \<lparr> ok = True, json_body = Inr (SearchData (ResultArray ?rs)) \<rparr>
              \<and> ok \<lparr> ok = True, json_body = Inr (SearchData (ResultArray ?rs)) \<rparr>
              \<and> json_body \<lparr> ok = True, json_body = Inr (SearchData (ResultArray ?rs)) \<rparr>
                  = Inr (SearchData (ResultArray ?rs))"
    by (simp add: scripted_env_def four_results_search_def)
  have snips: "filter truthy_str (map make_snippet (leading_items (take 3 ?rs)))
                 = [js ''1\<newline>Source: u'', js ''3\<newline>Source: u'']"
    by (simp add: make_snippet_def sample_result_def blank_result_def or_else_def
        truthy_str_def js_def)
  note inst = snippet_composition [of blank_result ?env "[js ''kept'']" ?rs "[]" "js ''q''"
        "\<lparr> ok = True, json_body = Inr (SearchData (ResultArray ?rs)) \<rparr>"]
  have push: "push_results ?env [ResultItem blank_result] [js ''kept''] = (Inr (), [js ''kept''])"
    using inst [THEN conjunct2, THEN conjunct1] blank by (rule mp)
  have "fst (snd (query_attempt ?env (js ''q'') [js ''kept''] []))
          = [js ''kept''] @ filter truthy_str (map make_snippet (leading_items (take 3 ?rs)))"
    using inst [THEN conjunct2, THEN conjunct2, THEN conjunct2, THEN conjunct1] call
    by (rule mp)
  then have "fst (snd (query_attempt ?env (js ''q'') [js ''kept''] []))
          = [js ''kept'', js ''1\<newline>Source: u'', js ''3\<newline>Source: u'']"
    by (simp only: snips append.simps)
  with blank push show ?thesis by (simp only: simp_thms)
qed

section \<open>Orchestrator\<close>

text \<open>
  C8. Every response of \<open>POST\<close> is an object with a single field, and that field is
  either \<open>article\<close> or \<open>error\<close>: exactly one of the two is present.
\<close>

theorem single_field_response:
  "length (fields (fst (POST env req))) = 1
   \<and> ((''article'' \<in> fst ` set (fields (fst (POST env req))))
        \<noteq> (''error'' \<in> fst ` set (fields (fst (POST env req)))))"
proof -
  have shape: "(\<exists>a. resp = Response [(''article'', a)] 200)
               \<or> (\<exists>m st. resp = Response [(''error'', m)] st)"
    if "fst (pipeline env t) = Inr resp" for t resp
    using that
    by (auto simp: pipeline_def split: prod.splits sum.splits if_splits)
  have shape_try: "(\<exists>a. resp = Response [(''article'', a)] 200)
               \<or> (\<exists>m st. resp = Response [(''error'', m)] st)"
    if "fst (POST_try env req) = Inr resp" for resp
    using that shape
    by (auto simp: POST_try_def split: sum.splits if_splits option.splits json.splits)
  have "(\<exists>a. fst (POST env req) = Response [(''article'', a)] 200)
               \<or> (\<exists>m st. fst (POST env req) = Response [(''error'', m)] st)"
  proof (cases "POST_try env req")
    case (Pair r tr)
    show ?thesis
    proof (cases r)
      case (Inl e)
      then show ?thesis using Pair by (simp add: POST_def Let_def)
    next
      case (Inr resp)
      then show ?thesis using Pair shape_try [of resp] by (simp add: POST_def)
    qed
  qed
  then show ?thesis by auto
qed

text \<open>
  C9. When the body is not valid JSON, \<open>request.json()\<close> throws inside the \<open>try\<close>
  block before the topic is looked at: the response carries the message of the parse
  exception with status 500, not 400, and the only event is the log of the catch block.
\<close>

theorem malformed_body_is_500:
  "request_json req = Inl (ErrorObj m) \<Longrightarrow>
     POST env req = (Response [(''error'', m)] 500, [ConsoleError (ErrorObj m)])
     \<and> status (fst (POST env req)) \<noteq> 400"
  by (simp add: POST_def POST_try_def)

theorem malformed_body_is_500_witness:
  "request_json (Request (Inl (ErrorObj (js ''Unexpected end of JSON input''))))
     = Inl (ErrorObj (js ''Unexpected end of JSON input''))
   \<and> POST (scripted_env (\<lambda>n. Inl NonError) refusing_search)
        (Request (Inl (ErrorObj (js ''Unexpected end of JSON input''))))
      = (Response [(''error'', js ''Unexpected end of JSON input'')] 500,
         [ConsoleError (ErrorObj (js ''Unexpected end of JSON input''))])"
  using malformed_body_is_500
    [of "Request (Inl (ErrorObj (js ''Unexpected end of JSON input'')))"
        "js ''Unexpected end of JSON input''"
        "scripted_env (\<lambda>n. Inl NonError) refusing_search"]
  by simp

lemmas run_defs =
  searcherAgent_def retriever_def query_attempt_def
  writerAgent_def editorAgent_def derive_queries_def first_content_def or_else_def
  truthy_str_def trim_def is_white_def js_def scripted_env_def topic_request_def
  completion_of_def destructure_topic_def topic_rejected_def env_truthy_def Let_def
  refusing_search_def accepted_def news_def

lemma stage_throws_try: "stage_throws env req e tr \<Longrightarrow> POST_try env req = (Inl e, tr)"
proof (induction rule: stage_throws.induct)
  case (body_parsing e)
  then show ?case by (simp add: POST_try_def)
next
  case (destructuring body e)
  then show ?case by (simp add: POST_try_def)
next
  case (planner t e tr1)
  then show ?case by (simp add: accepted_POST_try pipeline_def)
next
  case (drafter t researchData tr1 e tr2)
  then show ?case by (simp add: accepted_POST_try pipeline_def)
next
  case (refiner t researchData tr1 draft tr2 e tr3)
  then show ?case by (simp add: accepted_POST_try pipeline_def)
qed

lemma searcherAgent_quiet:
  "searcherAgent env t [] = (r, tr) \<Longrightarrow> filter is_console_error tr = []"
proof -
  assume "searcherAgent env t [] = (r, tr)"
  then have "set tr \<subseteq> {ChatCall (planner_request env t)} \<union> range FetchCall"
    using searcherAgent_events [of env t "[]"] by simp
  then have "\<forall>ev \<in> set tr. \<not> is_console_error ev"
    by (auto simp: is_console_error_def)
  then show ?thesis by (simp add: filter_empty_conv)
qed

lemma writerAgent_quiet:
  "writerAgent env t rd tr = (r, tr') \<Longrightarrow> filter is_console_error tr' = filter is_console_error tr"
  using writerAgent_trace [of env t rd tr] by (simp add: is_console_error_def)

lemma editorAgent_quiet:
  "editorAgent env d tr = (r, tr') \<Longrightarrow> filter is_console_error tr' = filter is_console_error tr"
  using editorAgent_trace [of env d tr] by (simp add: is_console_error_def)

lemma stage_throws_quiet: "stage_throws env req e tr \<Longrightarrow> filter is_console_error tr = []"
proof (induction rule: stage_throws.induct)
  case (body_parsing e)
  then show ?case by simp
next
  case (destructuring body e)
  then show ?case by simp
next
  case (planner t e tr1)
  then show ?case by (simp add: searcherAgent_quiet)
next
  case (drafter t researchData tr1 e tr2)
  then show ?case using searcherAgent_quiet writerAgent_quiet by metis
next
  case (refiner t researchData tr1 draft tr2 e tr3)
  then show ?case using searcherAgent_quiet writerAgent_quiet editorAgent_quiet by metis
qed

text \<open>
  C7. Whatever a stage throws inside the \<open>try\<close> block (the parse of the body, the
  destructuring, the searcher through its planner call, the writer, the editor), \<open>POST\<close>
  answers with status 500 and the single field \<open>error\<close>, holding the message of the
  exception when it is an \<open>Error\<close> and "Internal server error" otherwise. The catch
  block runs once: it logs the exception after the events of the stages, and that is the only
  log entry.
\<close>

theorem exceptions_caught_once:
  assumes "stage_throws env req e tr"
  shows "POST env req =
           (Response [(''error'',
                       case e of ErrorObj m \<Rightarrow> m | NonError \<Rightarrow> js ''Internal server error'')] 500,
            tr @ [ConsoleError e])
         \<and> length (filter is_console_error (snd (POST env req))) = 1"
proof -
  have "POST env req =
           (Response [(''error'',
                       case e of ErrorObj m \<Rightarrow> m | NonError \<Rightarrow> js ''Internal server error'')] 500,
            tr @ [ConsoleError e])"
    using stage_throws_try [OF assms] by (rule POST_of_try_Inl)
  then show ?thesis
    using stage_throws_quiet [OF assms] by (simp add: is_console_error_def)
qed

theorem exceptions_caught_once_witness:
  "fst (POST (scripted_env broken_writer_chat refusing_search) (topic_request (js '' AI '')))
     = Response [(''error'', js ''Connection error.'')] 500
   \<and> length (filter is_console_error
        (snd (POST (scripted_env broken_writer_chat refusing_search)
                (topic_request (js '' AI ''))))) = 1"
proof -
  let ?env = "scripted_env broken_writer_chat refusing_search"
  let ?req = "topic_request (js '' AI '')"
  let ?tr1 = "[ChatCall (planner_request ?env (js ''AI'')),
               FetchCall (search_url ?env (js ''news''))]"
  let ?rd = "[no_results_snippet (js ''AI'')]"
  have t: "trim (js '' AI '') = js ''AI''"
    by (simp add: trim_def is_white_def js_def)
  have a: "accepted ?env ?req (js '' AI '')"
    by (simp add: run_defs)
  have s: "searcherAgent ?env (trim (js '' AI '')) [] = (Inr ?rd, ?tr1)"
    unfolding t by (simp add: run_defs broken_writer_chat_def)
  have w: "writerAgent ?env (trim (js '' AI '')) ?rd ?tr1
             = (Inl (ErrorObj (js ''Connection error.'')),
                ?tr1 @ [ChatCall (writer_request ?env (js ''AI'') ?rd)])"
    unfolding t by (simp add: writerAgent_def scripted_env_def broken_writer_chat_def Let_def)
  have "stage_throws ?env ?req (ErrorObj (js ''Connection error.''))
          (?tr1 @ [ChatCall (writer_request ?env (js ''AI'') ?rd)])"
    using a s w by (rule stage_throws.drafter)
  note caught = exceptions_caught_once [OF this]
  have "fst (POST ?env ?req) = Response [(''error'', js ''Connection error.'')] 500"
    using caught [THEN conjunct1] by simp
  then show ?thesis
    using caught [THEN conjunct2] by (rule conjI)
qed

text \<open>
  C4. When the writer returns the empty string, \<open>POST\<close> answers with the error
  "Failed to generate article draft." and status 500; the call of the writer is the last
  event, and no call of the editor is made.
\<close>

theorem empty_draft_is_failure:
  assumes "accepted env req t"
    and "searcherAgent env (trim t) [] = (Inr researchData, tr1)"
    and "writerAgent env (trim t) researchData tr1 = (Inr [], tr2)"
  shows "POST env req
           = (Response [(''error'', js ''Failed to generate article draft.'')] 500, tr2)
         \<and> tr2 = tr1 @ [ChatCall (writer_request env (trim t) researchData)]
         \<and> (\<forall>d. ChatCall (editor_request env d) \<notin> set (snd (POST env req)))"
proof -
  have "POST_try env req
          = (Inr (Response [(''error'', js ''Failed to generate article draft.'')] 500), tr2)"
    using assms by (simp add: accepted_POST_try pipeline_def truthy_str_def)
  then have post: "POST env req
          = (Response [(''error'', js ''Failed to generate article draft.'')] 500, tr2)"
    by (rule POST_of_try_Inr)
  have tr2: "tr2 = tr1 @ [ChatCall (writer_request env (trim t) researchData)]"
    using writerAgent_trace [of env "trim t" researchData tr1] assms(3) by simp
  have tr1: "set tr1 \<subseteq> {ChatCall (planner_request env (trim t))} \<union> range FetchCall"
    using searcherAgent_events [of env "trim t" "[]"] assms(2) by simp
  have "ChatCall (editor_request env d) \<notin> set tr2" for d
  proof
    assume "ChatCall (editor_request env d) \<in> set tr2"
    then have "ChatCall (editor_request env d) = ChatCall (writer_request env (trim t) researchData)
               \<or> ChatCall (editor_request env d) \<in> set tr1"
      using tr2 by auto
    then have "editor_request env d = writer_request env (trim t) researchData
               \<or> editor_request env d = planner_request env (trim t)"
      using tr1 by auto
    then show False
      using editor_request_distinct by metis
  qed
  with post tr2 show ?thesis by simp
qed

theorem empty_draft_is_failure_witness:
  "fst (POST (scripted_env empty_draft_chat refusing_search) (topic_request (js '' AI '')))
     = Response [(''error'', js ''Failed to generate article draft.'')] 500
   \<and> snd (POST (scripted_env empty_draft_chat refusing_search) (topic_request (js '' AI '')))
     = [ChatCall (planner_request (scripted_env empty_draft_chat refusing_search) (js ''AI'')),
        FetchCall (search_url (scripted_env empty_draft_chat refusing_search) (js ''news'')),
        ChatCall (writer_request (scripted_env empty_draft_chat refusing_search) (js ''AI'')
                    [no_results_snippet (js ''AI'')])]"
proof -
  let ?env = "scripted_env empty_draft_chat refusing_search"
  let ?req = "topic_request (js '' AI '')"
  let ?tr1 = "[ChatCall (planner_request ?env (js ''AI'')),
               FetchCall (search_url ?env (js ''news''))]"
  let ?rd = "[no_results_snippet (js ''AI'')]"
  have t: "trim (js '' AI '') = js ''AI''"
    by (simp add: trim_def is_white_def js_def)
  have a: "accepted ?env ?req (js '' AI '')"
    by (simp add: run_defs)
  have s: "searcherAgent ?env (trim (js '' AI '')) [] = (Inr ?rd, ?tr1)"
    unfolding t by (simp add: run_defs empty_draft_chat_def)
  have w: "writerAgent ?env (trim (js '' AI '')) ?rd ?tr1
             = (Inr [], ?tr1 @ [ChatCall (writer_request ?env (js ''AI'') ?rd)])"
    unfolding t
    by (simp add: writerAgent_def scripted_env_def empty_draft_chat_def Let_def
        completion_of_def first_content_def or_else_def)
  note failed = empty_draft_is_failure [OF a s w, THEN conjunct1]
  show ?thesis
    unfolding failed by simp
qed

lemma editorAgent_nonempty:
  assumes "editorAgent env draft tr = (Inr article, tr')" and "draft \<noteq> []"
  shows "article \<noteq> []"
  using assms
  by (auto simp: editorAgent_def or_else_def truthy_str_def Let_def
      split: sum.splits option.splits if_splits)

text \<open>
  C5. When the completion of the editor's call has no content or an empty one,
  \<open>editorAgent\<close> returns the draft unchanged; and when that draft is the non-empty draft
  of an accepted request, the response of \<open>POST\<close> is the success object holding the draft
  verbatim as the article.
\<close>

theorem editor_falls_back_to_draft:
  assumes "chat_create env (length tr2) (editor_request env draft) = Inr response"
    and "first_content response = None \<or> first_content response = Some []"
  shows "editorAgent env draft tr2 = (Inr draft, tr2 @ [ChatCall (editor_request env draft)])
         \<and> (accepted env req t
              \<and> searcherAgent env (trim t) [] = (Inr researchData, tr1)
              \<and> writerAgent env (trim t) researchData tr1 = (Inr draft, tr2)
              \<and> draft \<noteq> []
              \<longrightarrow> POST env req
                    = (Response [(''article'', draft)] 200,
                       tr2 @ [ChatCall (editor_request env draft)]))"
proof -
  have ed: "editorAgent env draft tr2
              = (Inr draft, tr2 @ [ChatCall (editor_request env draft)])"
    using assms by (auto simp: editorAgent_def or_else_def truthy_str_def Let_def)
  have "POST env req
          = (Response [(''article'', draft)] 200, tr2 @ [ChatCall (editor_request env draft)])"
    if "accepted env req t
        \<and> searcherAgent env (trim t) [] = (Inr researchData, tr1)
        \<and> writerAgent env (trim t) researchData tr1 = (Inr draft, tr2)
        \<and> draft \<noteq> []"
  proof -
    from that have a: "accepted env req t"
      and s: "searcherAgent env (trim t) [] = (Inr researchData, tr1)"
      and w: "writerAgent env (trim t) researchData tr1 = (Inr draft, tr2)"
      and n: "draft \<noteq> []"
      by simp_all
    have "POST_try env req
            = (Inr (Response [(''article'', draft)] 200),
               tr2 @ [ChatCall (editor_request env draft)])"
      unfolding accepted_POST_try [OF a] pipeline_def
      using n by (simp add: s w ed truthy_str_def)
    then show ?thesis by (rule POST_of_try_Inr)
  qed
  with ed show ?thesis by blast
qed

theorem editor_falls_back_to_draft_witness:
  "fst (POST (scripted_env silent_editor_chat refusing_search) (topic_request (js '' AI '')))
     = Response [(''article'', js ''news'')] 200"
proof -
  let ?env = "scripted_env silent_editor_chat refusing_search"
  let ?req = "topic_request (js '' AI '')"
  let ?tr1 = "[ChatCall (planner_request ?env (js ''AI'')),
               FetchCall (search_url ?env (js ''news''))]"
  let ?rd = "[no_results_snippet (js ''AI'')]"
  let ?tr2 = "?tr1 @ [ChatCall (writer_request ?env (js ''AI'') ?rd)]"
  have t: "trim (js '' AI '') = js ''AI''"
    by (simp add: trim_def is_white_def js_def)
  have a: "accepted ?env ?req (js '' AI '')"
    by (simp add: run_defs)
  have s: "searcherAgent ?env (trim (js '' AI '')) [] = (Inr ?rd, ?tr1)"
    unfolding t by (simp add: run_defs silent_editor_chat_def)
  have w: "writerAgent ?env (trim (js '' AI '')) ?rd ?tr1 = (Inr (js ''news''), ?tr2)"
    unfolding t
    by (simp add: writerAgent_def scripted_env_def silent_editor_chat_def Let_def news_def
        completion_of_def first_content_def or_else_def truthy_str_def js_def)
  have c: "chat_create ?env (length ?tr2) (editor_request ?env (js ''news''))
             = Inr (completion_of (Some []))"
    by (simp add: scripted_env_def silent_editor_chat_def)
  have e: "first_content (completion_of (Some [])) = None
           \<or> first_content (completion_of (Some [])) = Some []"
    by (simp add: completion_of_def first_content_def)
  have n: "js ''news'' \<noteq> []"
    by (simp add: js_def)
  have "POST ?env ?req
          = (Response [(''article'', js ''news'')] 200,
             ?tr2 @ [ChatCall (editor_request ?env (js ''news''))])"
    using editor_falls_back_to_draft [OF c e, THEN conjunct2] a s w n by blast
  then show ?thesis by simp
qed

text \<open>
  C10. With no search key in the environment, \<open>getSerpApiKey\<close> gives the empty string and
  \<open>POST\<close> does not reject the request. For an accepted request whose planner call returns:
  the searcher makes one search call per planned query, each with the empty key, and returns
  a non-empty research list whatever the search service answers; if the service contributes
  nothing to calls made with an empty key (it throws, refuses, or returns nothing usable),
  that list is the single synthetic snippet; and when the writer then returns a non-empty
  draft and the editor returns, the response is the success object with a non-empty article.
\<close>

theorem missing_search_key_is_no_error:
  assumes "SERPAPI_API_KEY env = None"
    and "accepted env req t"
    and "chat_create env 0 (planner_request env (trim t)) = Inr plan"
  shows "getSerpApiKey env = []
         \<and> (\<forall>q. param_api_key (search_url env q) = [])
         \<and> snd (searcherAgent env (trim t) [])
             = ChatCall (planner_request env (trim t))
               # map (\<lambda>q. FetchCall (search_url env q)) (derive_queries plan (trim t))
         \<and> (\<exists>found. fst (searcherAgent env (trim t) []) = Inr found \<and> found \<noteq> [])
         \<and> ((\<forall>n u. param_api_key u = [] \<longrightarrow> contribution (fetch env n u) = [])
              \<longrightarrow> fst (searcherAgent env (trim t) []) = Inr [no_results_snippet (trim t)])
         \<and> (searcherAgent env (trim t) [] = (Inr researchData, tr1)
             \<and> writerAgent env (trim t) researchData tr1 = (Inr draft, tr2)
             \<and> draft \<noteq> []
             \<and> editorAgent env draft tr2 = (Inr article, tr3)
             \<longrightarrow> POST env req = (Response [(''article'', article)] 200, tr3)
                  \<and> article \<noteq> [])"
proof -
  let ?t = "trim t"
  let ?tr0 = "[ChatCall (planner_request env ?t)]"
  let ?qs = "derive_queries plan ?t"
  have key: "getSerpApiKey env = []"
    using assms(1) by (simp add: getSerpApiKey_def or_else_def)
  have url: "\<forall>q. param_api_key (search_url env q) = []"
    by (simp add: search_url_def key)
  have tr: "snd (searcherAgent env ?t [])
             = ChatCall (planner_request env ?t) # map (\<lambda>q. FetchCall (search_url env q)) ?qs"
    using searcherAgent_trace [of env "[]" ?t plan] assms(3) by simp
  have sa: "fst (searcherAgent env ?t []) = fst (retriever env ?t ?qs ?tr0)"
    using assms(3) by (simp add: searcherAgent_def Let_def)
  have found: "\<exists>found. fst (searcherAgent env ?t []) = Inr found \<and> found \<noteq> []"
    using retriever_total [of env ?t ?qs ?tr0] sa by auto
  have fruitless: "fst (searcherAgent env ?t []) = Inr [no_results_snippet ?t]"
    if "\<forall>n u. param_api_key u = [] \<longrightarrow> contribution (fetch env n u) = []"
  proof -
    have "contribution (fetch env n (search_url env q)) = []" for n q
      using that url by simp
    then have "fst (snd (search_loop env ?qs [] ?tr0)) = []"
      by (rule search_loop_fruitless)
    then show ?thesis
      using retriever_total [of env ?t ?qs ?tr0] sa by auto
  qed
  have success: "POST env req = (Response [(''article'', article)] 200, tr3) \<and> article \<noteq> []"
    if "searcherAgent env ?t [] = (Inr researchData, tr1)
        \<and> writerAgent env ?t researchData tr1 = (Inr draft, tr2)
        \<and> draft \<noteq> []
        \<and> editorAgent env draft tr2 = (Inr article, tr3)"
  proof -
    from that have s: "searcherAgent env ?t [] = (Inr researchData, tr1)"
      and w: "writerAgent env ?t researchData tr1 = (Inr draft, tr2)"
      and n: "draft \<noteq> []"
      and e: "editorAgent env draft tr2 = (Inr article, tr3)"
      by simp_all
    have "POST_try env req = (Inr (Response [(''article'', article)] 200), tr3)"
      unfolding accepted_POST_try [OF assms(2)] pipeline_def
      using n by (simp add: s w e truthy_str_def)
    then have "POST env req = (Response [(''article'', article)] 200, tr3)"
      by (rule POST_of_try_Inr)
    moreover have "article \<noteq> []"
      using e n by (rule editorAgent_nonempty)
    ultimately show ?thesis by simp
  qed
  from key url tr found fruitless success show ?thesis by blast
qed

theorem missing_search_key_is_no_error_witness:
  "SERPAPI_API_KEY (scripted_env (\<lambda>n. news) refusing_search) = None
   \<and> fst (searcherAgent (scripted_env (\<lambda>n. news) refusing_search) (js ''AI'') [])
      = Inr [no_results_snippet (js ''AI'')]
   \<and> fst (POST (scripted_env (\<lambda>n. news) refusing_search) (topic_request (js '' AI '')))
      = Response [(''article'', js ''news'')] 200"
proof -
  let ?env = "scripted_env (\<lambda>n. news) refusing_search"
  let ?req = "topic_request (js '' AI '')"
  let ?tr1 = "[ChatCall (planner_request ?env (js ''AI'')),
               FetchCall (search_url ?env (js ''news''))]"
  let ?rd = "[no_results_snippet (js ''AI'')]"
  let ?tr2 = "?tr1 @ [ChatCall (writer_request ?env (js ''AI'') ?rd)]"
  let ?tr3 = "?tr2 @ [ChatCall (editor_request ?env (js ''news''))]"
  have t: "trim (js '' AI '') = js ''AI''"
    by (simp add: trim_def is_white_def js_def)
  have k: "SERPAPI_API_KEY ?env = None"
    by (simp add: scripted_env_def)
  have f: "\<forall>n u. param_api_key u = [] \<longrightarrow> contribution (fetch ?env n u) = []"
    by (simp add: scripted_env_def refusing_search_def contribution_def)
  have a: "accepted ?env ?req (js '' AI '')"
    by (simp add: run_defs)
  have p: "chat_create ?env 0 (planner_request ?env (trim (js '' AI '')))
             = Inr (completion_of (Some (js ''news'')))"
    by (simp add: scripted_env_def news_def)
  have s: "searcherAgent ?env (trim (js '' AI '')) [] = (Inr ?rd, ?tr1)"
    unfolding t by (simp add: run_defs)
  have w: "writerAgent ?env (trim (js '' AI '')) ?rd ?tr1 = (Inr (js ''news''), ?tr2)"
    unfolding t
    by (simp add: writerAgent_def scripted_env_def Let_def news_def
        completion_of_def first_content_def or_else_def truthy_str_def js_def)
  have e: "editorAgent ?env (js ''news'') ?tr2 = (Inr (js ''news''), ?tr3)"
    by (simp add: editorAgent_def scripted_env_def Let_def news_def
        completion_of_def first_content_def or_else_def truthy_str_def js_def)
  have n: "js ''news'' \<noteq> []"
    by (simp add: js_def)
  note inst = missing_search_key_is_no_error [OF k a p]
  have "fst (searcherAgent ?env (trim (js '' AI '')) []) = Inr [no_results_snippet (trim (js '' AI ''))]"
    using inst f by blast
  then have found: "fst (searcherAgent ?env (js ''AI'') []) = Inr [no_results_snippet (js ''AI'')]"
    unfolding t .
  have "POST ?env ?req = (Response [(''article'', js ''news'')] 200, ?tr3)"
    using inst s w n e by blast
  then have "fst (POST ?env ?req) = Response [(''article'', js ''news'')] 200"
    by simp
  with k found show ?thesis by (simp only: simp_thms)
qed

section \<open>Query planner\<close>

text \<open>
  Facts about \<open>trim\<close> and \<open>split\<close> and what the query-derivation step guarantees: at
  most three queries, each non-empty and already trimmed; at least one exactly when the text
  used (the content, or the topic when the content is absent or empty) has a line that is
  not blank; and the topic alone when the content is absent or empty and the topic is a
  single trimmed line.
\<close>

lemma dropWhile_fixed: "xs = [] \<or> \<not> P (hd xs) \<Longrightarrow> dropWhile P xs = xs"
  by (cases xs) auto

lemma trim_last: "trim s \<noteq> [] \<Longrightarrow> \<not> is_white (last (trim s))"
proof -
  assume ne: "trim s \<noteq> []"
  let ?d = "dropWhile is_white (rev (dropWhile is_white s))"
  have "?d \<noteq> []" using ne by (simp add: trim_def)
  then have "\<not> is_white (hd ?d)" by (rule hd_dropWhile)
  moreover have "last (trim s) = hd ?d"
    using \<open>?d \<noteq> []\<close> by (simp add: trim_def last_rev)
  ultimately show ?thesis by simp
qed

lemma trim_hd: "trim s \<noteq> [] \<Longrightarrow> \<not> is_white (hd (trim s))"
proof -
  assume ne: "trim s \<noteq> []"
  let ?a = "dropWhile is_white s"
  have "rev (takeWhile is_white (rev ?a) @ dropWhile is_white (rev ?a))
          = trim s @ rev (takeWhile is_white (rev ?a))"
    by (simp only: rev_append trim_def)
  then have "rev (rev ?a) = trim s @ rev (takeWhile is_white (rev ?a))"
    by (simp only: takeWhile_dropWhile_id)
  then have "?a = trim s @ rev (takeWhile is_white (rev ?a))"
    by (simp only: rev_rev_ident)
  then obtain c where a: "?a = trim s @ c" ..
  have "?a \<noteq> []"
  proof
    assume "?a = []"
    then have "trim s @ c = []" using a by simp
    then show False using ne by simp
  qed
  then have "\<not> is_white (hd ?a)" by (rule hd_dropWhile)
  moreover have "hd ?a = hd (trim s)"
    using a ne by (metis hd_append2)
  ultimately show ?thesis by simp
qed

lemma trim_idem: "trim (trim s) = trim s"
proof (cases "trim s = []")
  case True
  have "trim [] = []" by (simp add: trim_def)
  then show ?thesis by (simp only: True)
next
  case False
  have 1: "dropWhile is_white (trim s) = trim s"
    using trim_hd [OF False] by (simp add: dropWhile_fixed)
  have "rev (trim s) \<noteq> []" using False by simp
  moreover have "hd (rev (trim s)) = last (trim s)"
    using False by (simp add: hd_rev)
  ultimately have 2: "dropWhile is_white (rev (trim s)) = rev (trim s)"
    using trim_last [OF False] by (simp add: dropWhile_fixed)
  show ?thesis
    by (subst trim_def) (simp add: 1 2)
qed

lemma split_nl_single: "0xA \<notin> set s \<Longrightarrow> split_nl s = [s]"
  by (induction s) simp_all


lemma derive_queries_bounds:
  "length (derive_queries r t) \<le> 3
   \<and> (\<forall>q \<in> set (derive_queries r t). q \<noteq> [] \<and> trim q = q)"
proof -
  let ?lines = "split_nl (or_else (first_content r) t)"
  have "q \<noteq> [] \<and> trim q = q" if "q \<in> set (derive_queries r t)" for q
  proof -
    from that have "q \<in> set (take 3 (filter truthy_str (map trim ?lines)))"
      by (simp add: derive_queries_def Let_def)
    then have "q \<in> set (filter truthy_str (map trim ?lines))"
      by (rule in_set_takeD)
    then have "truthy_str q" and "q \<in> trim ` set ?lines"
      by simp_all
    then show ?thesis
      by (auto simp: truthy_str_def trim_idem)
  qed
  moreover have "length (derive_queries r t) \<le> 3"
    by (simp add: derive_queries_def Let_def)
  ultimately show ?thesis by blast
qed


lemma derive_queries_fallback:
  assumes "first_content r = None \<or> first_content r = Some []"
    and "t \<noteq> []" and "trim t = t" and "0xA \<notin> set t"
  shows "derive_queries r t = [t]"
proof -
  have chosen: "or_else (first_content r) t = t"
    using assms(1) by (auto simp: or_else_def truthy_str_def)
  have pieces: "split_nl t = [t]"
    using assms(4) by (rule split_nl_single)
  have "filter truthy_str (map trim [t]) = [t]"
    by (simp add: assms(2,3) truthy_str_def)
  then show ?thesis
    by (simp add: derive_queries_def chosen pieces)
qed

lemma derive_queries_nonempty_iff:
  "derive_queries r t \<noteq> []
     \<longleftrightarrow> (\<exists>l \<in> set (split_nl (or_else (first_content r) t)). trim l \<noteq> [])"
proof -
  let ?kept = "filter truthy_str (map trim (split_nl (or_else (first_content r) t)))"
  have "derive_queries r t \<noteq> [] \<longleftrightarrow> ?kept \<noteq> []"
    by (simp add: derive_queries_def Let_def)
  also have "\<dots> \<longleftrightarrow> (\<exists>l \<in> set (split_nl (or_else (first_content r) t)). trim l \<noteq> [])"
    by (simp add: filter_empty_conv truthy_str_def)
  finally show ?thesis .
qed

text \<open>
  C2. The planner is to produce between one and three queries for every text the
  generative call returns, and the trimmed topic alone when the call yields nothing usable.
  The fallback \<open>content || topic\<close> is taken before the text is split and filtered, so it
  covers an absent or empty content only: for the topic "AI" and a completion whose content
  is a single space, no query is derived.
\<close>

theorem blank_completion_gives_no_query:
  "derive_queries (completion_of (Some (js '' ''))) (js ''AI'') = []"
  by (simp add: derive_queries_def completion_of_def first_content_def or_else_def
      truthy_str_def trim_def is_white_def js_def)

text \<open>
  The same order of steps splits a topic that holds a line break when the fallback is taken.
\<close>

lemma multiline_topic_is_split:
  "derive_queries (completion_of None) (js ''a\<newline>b'') = [js ''a'', js ''b'']"
  by (simp add: derive_queries_def completion_of_def first_content_def or_else_def
      truthy_str_def trim_def is_white_def js_def)

section \<open>Validation of the topic\<close>

text \<open>
  A body that is not \<open>null\<close> and whose topic is absent, not a string, or empty after
  trimming is answered with status 400 before any collaborator is called.
\<close>

lemma invalid_topic_is_400:
  assumes "request_json req = Inr body" and "body \<noteq> JNull"
    and "destructure_topic env body = Inr topic"
    and "topic = None \<or> typeof topic \<noteq> ''string''
         \<or> (\<exists>t. topic = Some (JStr t) \<and> trim t = [])"
  shows "POST env req = (Response [(''error'', js ''A valid topic is required.'')] 400, [])"
proof -
  have "topic_rejected topic"
    using assms(4) by (auto simp: topic_rejected_def)
  then show ?thesis
    using assms(1,3) by (simp add: POST_def POST_try_def)
qed

lemma non_null_body_destructures: "body \<noteq> JNull \<Longrightarrow> \<exists>topic. destructure_topic env body = Inr topic"
  by (cases body) (simp_all add: destructure_topic_def)

lemma sibling_bodies_are_400:
  "POST env (Request (Inr (JObj [])))
     = (Response [(''error'', js ''A valid topic is required.'')] 400, [])"
  "POST env (Request (Inr (JArr [])))
     = (Response [(''error'', js ''A valid topic is required.'')] 400, [])"
  "POST env (Request (Inr (JNum (Finite 5))))
     = (Response [(''error'', js ''A valid topic is required.'')] 400, [])"
  by (simp_all add: POST_def POST_try_def destructure_topic_def topic_rejected_def)

text \<open>
  C3. A request without a usable topic is to be answered with status 400 and without any
  call of a collaborator. The body \<open>null\<close> has no topic, but destructuring it throws
  before the guard is reached: the answer is status 500 with the text of the runtime's
  \<open>TypeError\<close>. No collaborator is called there either.
\<close>

theorem null_body_is_500:
  "POST env (Request (Inr JNull))
     = (Response [(''error'', type_error_message env)] 500,
        [ConsoleError (ErrorObj (type_error_message env))])"
  by (simp add: POST_def POST_try_def destructure_topic_def)

end
